theory Spec2Isabelle
  imports Main "HOL-Library.AList"
begin

section \<open>Data model (src/models/Session.js and the User schema)\<close>

text \<open>
  An ObjectId is represented by its canonical hexadecimal string. Identifiers arrive in a
  request as arbitrary strings; turning such a string into an ObjectId is the work of the
  database driver, which is not part of the repository. The handlers below therefore take
  the conversion as a parameter \<open>cast\<close>: \<open>cast x = None\<close> means that the driver
  throws on \<open>x\<close> (the handlers' \<^verbatim>\<open>catch\<close> blocks turn that into status 500),
  \<open>cast x = Some i\<close> that \<open>x\<close> denotes the ObjectId \<open>i\<close>.
\<close>

type_synonym objectId = string
type_synonym caster = "string \<Rightarrow> objectId option"

datatype sessionStatus = Pending | Active | Completed | Cancelled

record optionRec =
  optionId :: string
  description :: string
  yesVotes :: int
  noVotes :: int

text \<open>
  \<^verbatim>\<open>optionSwipes: { type: Map, of: String }\<close>: a JavaScript Map keeps its entries in
  insertion order, so it is an association list; the stored values are strings. The Map of
  a stored record stands in the order in which \<^verbatim>\<open>findById\<close> yields its entries.
\<close>

type_synonym ('k, 'v) jsMap = "('k \<times> 'v) list"

record swipeRec =
  userId :: objectId
  optionSwipes :: "(string, string) jsMap"

record session =
  sessionId :: string
  title :: string
  createdBy :: "objectId option"
  users :: "objectId list"
  options :: "optionRec list"
  status :: sessionStatus
  swipes :: "swipeRec list"

record user =
  userUuid :: string
  userName :: string
  email :: string
  createdSessions :: "objectId list"
  joinedSessions :: "objectId list"

text \<open>
  The two collections, keyed by the documents' \<^verbatim>\<open>_id\<close>. The timestamps that
  \<^verbatim>\<open>{ timestamps: true }\<close> adds to a document are not part of the model.
\<close>

record store =
  sessionDocs :: "objectId \<rightharpoonup> session"
  userDocs :: "objectId \<rightharpoonup> user"

section \<open>Requests and responses\<close>

text \<open>
  A field of a request body (or of the query string) is absent or a string. The guards
  \<^verbatim>\<open>!sessionId\<close> etc. hold for an absent field and for the empty string.
\<close>

type_synonym field = "string option"

definition falsy :: "field \<Rightarrow> bool" where
  "falsy f = (case f of None \<Rightarrow> True | Some x \<Rightarrow> x = [])"

record joinReq =
  jSessionId :: field
  jUserId :: field

record swipeReq =
  sSessionId :: field
  sUserId :: field
  sOptionId :: field
  sSwipeAction :: field

record resultReq =
  rSessionId :: field

datatype payload =
    ErrorBody string
  | JoinedBody string session
  | SwipesBody string "(string, string) jsMap"
  | UnanimousBody string "string list" "(string \<times> nat) list"
  | RankedBody string "(string \<times> nat) list"

record response =
  code :: nat
  body :: payload

definition reply :: "nat \<Rightarrow> payload \<Rightarrow> response" where
  "reply c b = \<lparr>code = c, body = b\<rparr>"

text \<open>The fields \<^verbatim>\<open>unanimousResults\<close> and \<^verbatim>\<open>allResults\<close> of a response body.\<close>

definition unanimousResults :: "payload \<Rightarrow> string list" where
  "unanimousResults b = (case b of UnanimousBody msg u a \<Rightarrow> u | _ \<Rightarrow> [])"

definition allResults :: "payload \<Rightarrow> (string \<times> nat) list" where
  "allResults b = (case b of UnanimousBody msg u a \<Rightarrow> a | RankedBody msg a \<Rightarrow> a | _ \<Rightarrow> [])"

section \<open>JavaScript Map and array primitives\<close>

text \<open>\<^verbatim>\<open>Map.prototype.set\<close>: an existing key keeps its position, a new key goes last.\<close>

fun mapSet :: "'k \<Rightarrow> 'v \<Rightarrow> ('k, 'v) jsMap \<Rightarrow> ('k, 'v) jsMap" where
  "mapSet key val [] = [(key, val)]"
| "mapSet key val ((k, v) # entries) =
     (if k = key then (key, val) # entries else (k, v) # mapSet key val entries)"

text \<open>\<^verbatim>\<open>swipeCount.get(optionId) || 0\<close>\<close>

definition getOrZero :: "(string, nat) jsMap \<Rightarrow> string \<Rightarrow> nat" where
  "getOrZero m k = (case map_of m k of None \<Rightarrow> 0 | Some c \<Rightarrow> (if c = 0 then 0 else c))"

text \<open>\<^verbatim>\<open>Array.prototype.find\<close>, returning the position of the element found.\<close>

fun findIndexFrom :: "nat \<Rightarrow> ('a \<Rightarrow> bool) \<Rightarrow> 'a list \<Rightarrow> nat option" where
  "findIndexFrom i P [] = None"
| "findIndexFrom i P (x # xs) = (if P x then Some i else findIndexFrom (Suc i) P xs)"

datatype 'a lookup = Threw | Missing | Found 'a

text \<open>\<^verbatim>\<open>Session.findById\<close> and \<^verbatim>\<open>User.findById\<close>\<close>

definition findById :: "caster \<Rightarrow> (objectId \<rightharpoonup> 'd) \<Rightarrow> string \<Rightarrow> (objectId \<times> 'd) lookup" where
  "findById cast docs x =
     (case cast x of
        None \<Rightarrow> Threw
      | Some i \<Rightarrow> (case docs i of None \<Rightarrow> Missing | Some d \<Rightarrow> Found (i, d)))"

section \<open>POST /join-session (src/server.js, lines 58-104)\<close>

definition toLowerCaseStatus :: "sessionStatus \<Rightarrow> string" where
  "toLowerCaseStatus s =
     (case s of Pending \<Rightarrow> ''pending'' | Active \<Rightarrow> ''active''
      | Completed \<Rightarrow> ''completed'' | Cancelled \<Rightarrow> ''cancelled'')"

definition JoinSession :: "caster \<Rightarrow> store \<Rightarrow> joinReq \<Rightarrow> store \<times> response" where
  "JoinSession cast st rq =
     (if falsy (jSessionId rq) \<or> falsy (jUserId rq)
      then (st, reply 400 (ErrorBody ''sessionID and userID are required''))
      else
        (case findById cast (sessionDocs st) (the (jSessionId rq)) of
           Threw \<Rightarrow> (st, reply 500 (ErrorBody ''Server error''))
         | Missing \<Rightarrow> (st, reply 404 (ErrorBody ''Session doesn't exist''))
         | Found (sid, s) \<Rightarrow>
             if status s \<in> {Completed, Cancelled}
             then (st, reply 400
                     (ErrorBody (''Cannot join a '' @ toLowerCaseStatus (status s) @ '' session'')))
             else
               (case findById cast (userDocs st) (the (jUserId rq)) of
                  Threw \<Rightarrow> (st, reply 500 (ErrorBody ''Server error''))
                | Missing \<Rightarrow> (st, reply 404 (ErrorBody ''User doesn't exist''))
                | Found (uid, u) \<Rightarrow>
                    if uid \<in> set (users s)
                    then (st, reply 400 (ErrorBody ''User is already in the session''))
                    else
                      (let s' = s\<lparr>users := users s @ [uid]\<rparr>;
                           u' = u\<lparr>joinedSessions := joinedSessions u @ [sid]\<rparr>;
                           st' = st\<lparr>sessionDocs := (sessionDocs st)(sid \<mapsto> s'),
                                     userDocs := (userDocs st)(uid \<mapsto> u')\<rparr>
                       in (st', reply 200 (JoinedBody ''User successfully joined session'' s'))))))"

section \<open>POST /swipe-option (src/server.js, lines 106-155)\<close>

text \<open>
  \<^verbatim>\<open>session.users.find((user) => user.equals(new mongoose.Types.ObjectId(String(userId))))\<close>:
  the ObjectId is constructed inside the callback, once for each element visited, so an
  identifier the driver rejects throws only when \<open>users\<close> has an element to visit.
\<close>

fun findMember :: "caster \<Rightarrow> string \<Rightarrow> objectId list \<Rightarrow> objectId lookup" where
  "findMember cast x [] = Missing"
| "findMember cast x (u # us) =
     (case cast x of
        None \<Rightarrow> Threw
      | Some i \<Rightarrow> if u = i then Found u else findMember cast x us)"

definition validAction :: "string list" where
  "validAction = [''yes'', ''no'']"

text \<open>
  Lines 134-138. \<open>session.swipes\<close> is a document array of the object-document mapper:
  \<^verbatim>\<open>find\<close> yields the stored subdocument itself, but \<^verbatim>\<open>push\<close> stores a
  copy cast from its argument (the subdocument gets a Map of its own), so after line 137
  \<^verbatim>\<open>userSwipe\<close> is still the plain object of line 136, detached from the document.
  The variable is therefore either a subdocument, named by its position in \<open>swipes\<close>, or
  a plain object with its own plain Map.
\<close>

datatype userSwipeVar = Subdocument nat | PlainObject "(string, string) jsMap"

definition locateOrCreate :: "caster \<Rightarrow> string \<Rightarrow> objectId \<Rightarrow> swipeRec list \<Rightarrow> swipeRec list \<times> userSwipeVar" where
  "locateOrCreate cast x u sws =
     (case findIndexFrom 0 (\<lambda>swipe. cast x = Some (userId swipe)) sws of
        Some i \<Rightarrow> (sws, Subdocument i)
      | None \<Rightarrow> (sws @ [\<lparr>userId = u, optionSwipes = []\<rparr>], PlainObject []))"

text \<open>
  The Map of a stored subdocument is the mapper's Map type, whose \<^verbatim>\<open>set\<close> throws on
  a key that starts with \<^verbatim>\<open>$\<close> or contains a dot; a plain Map takes every key.
\<close>

definition validKey :: "string \<Rightarrow> bool" where
  "validKey k = ((case k of [] \<Rightarrow> True | c # _ \<Rightarrow> c \<noteq> CHR ''$'') \<and> CHR ''.'' \<notin> set k)"

text \<open>
  Line 140, \<^verbatim>\<open>userSwipe.optionSwipes.set(optionId, swipeAction)\<close>, and line 143: the
  result is the array as line 141 saves it with the Map that line 143 reads, or \<open>None\<close>
  when \<^verbatim>\<open>set\<close> throws. A write to the plain object does not reach the array.
\<close>

definition setVote :: "userSwipeVar \<Rightarrow> string \<Rightarrow> string \<Rightarrow> swipeRec list \<Rightarrow>
    (swipeRec list \<times> (string, string) jsMap) option" where
  "setVote userSwipe opt act sws =
     (case userSwipe of
        Subdocument i \<Rightarrow>
          if validKey opt
          then Some (sws[i := (sws ! i)\<lparr>optionSwipes := mapSet opt act (optionSwipes (sws ! i))\<rparr>],
                     mapSet opt act (optionSwipes (sws ! i)))
          else None
      | PlainObject m \<Rightarrow> Some (sws, mapSet opt act m))"

definition RecordSwipe :: "caster \<Rightarrow> store \<Rightarrow> swipeReq \<Rightarrow> store \<times> response" where
  "RecordSwipe cast st rq =
     (if falsy (sSessionId rq) \<or> falsy (sUserId rq) \<or> falsy (sOptionId rq) \<or> falsy (sSwipeAction rq)
      then (st, reply 400
              (ErrorBody ''session ID, user ID, option ID and swipe action are required''))
      else
        (case findById cast (sessionDocs st) (the (sSessionId rq)) of
           Threw \<Rightarrow>
             (st, reply 500 (ErrorBody ''Server error occured while recording swipe action''))
         | Missing \<Rightarrow> (st, reply 404 (ErrorBody ''Session doesn't exist''))
         | Found (sid, s) \<Rightarrow>
             (case findMember cast (the (sUserId rq)) (users s) of
                Threw \<Rightarrow>
                  (st, reply 500 (ErrorBody ''Server error occured while recording swipe action''))
              | Missing \<Rightarrow> (st, reply 404 (ErrorBody ''User is not in session''))
              | Found u \<Rightarrow>
                  if the (sSwipeAction rq) \<notin> set validAction
                  then (st, reply 400 (ErrorBody ''Invalid swipe action''))
                  else
                    (let (sws, userSwipe) = locateOrCreate cast (the (sUserId rq)) u (swipes s)
                     in case setVote userSwipe (the (sOptionId rq)) (the (sSwipeAction rq)) sws of
                          None \<Rightarrow>
                            (st, reply 500
                               (ErrorBody ''Server error occured while recording swipe action''))
                        | Some (sws', optionSwipesObject) \<Rightarrow>
                            (st\<lparr>sessionDocs := (sessionDocs st)(sid \<mapsto> s\<lparr>swipes := sws'\<rparr>)\<rparr>,
                             reply 200
                               (SwipesBody ''Swipe action recorded successfully''
                                  optionSwipesObject))))))"

section \<open>GET /session-result (src/server.js, lines 157-211)\<close>

text \<open>Lines 175-180, the inner \<^verbatim>\<open>forEach\<close> over one user's Map.\<close>

fun tallyRecord :: "(string, string) jsMap \<Rightarrow> (string, nat) jsMap \<Rightarrow> (string, nat) jsMap" where
  "tallyRecord [] swipeCount = swipeCount"
| "tallyRecord ((opt, swipeAction) # rest) swipeCount =
     tallyRecord rest
       (if swipeAction = ''yes''
        then mapSet opt (getOrZero swipeCount opt + 1) swipeCount
        else swipeCount)"

text \<open>Lines 174-181, the outer \<^verbatim>\<open>forEach\<close> over the swipe records.\<close>

fun tally :: "swipeRec list \<Rightarrow> (string, nat) jsMap \<Rightarrow> (string, nat) jsMap" where
  "tally [] swipeCount = swipeCount"
| "tally (userSwipe # rest) swipeCount =
     tally rest (tallyRecord (optionSwipes userSwipe) swipeCount)"

text \<open>Lines 183-187.\<close>

definition unanimousOf :: "nat \<Rightarrow> (string, nat) jsMap \<Rightarrow> string list" where
  "unanimousOf userCount swipeCount = map fst (filter (\<lambda>(opt, count). count = userCount) swipeCount)"

text \<open>
  \<^verbatim>\<open>[...swipeCount].sort((a, b) => b[1] - a[1])\<close>: the comparator orders by count,
  larger first. \<^verbatim>\<open>Array.prototype.sort\<close> is stable (ECMAScript 2019), which is
  what the insertion sort \<open>sort_key\<close> is.
\<close>

definition sortDesc :: "(string \<times> nat) list \<Rightarrow> (string \<times> nat) list" where
  "sortDesc entries = sort_key (\<lambda>e. - int (snd e)) entries"

definition ComputeResult :: "caster \<Rightarrow> store \<Rightarrow> resultReq \<Rightarrow> store \<times> response" where
  \<open>ComputeResult cast st rq =
     (if falsy (rSessionId rq)
      then (st, reply 400 (ErrorBody ''Session ID is required''))
      else
        (case findById cast (sessionDocs st) (the (rSessionId rq)) of
           Threw \<Rightarrow> (st, reply 500 (ErrorBody ''Server error retrieving session result''))
         | Missing \<Rightarrow> (st, reply 404 (ErrorBody ''Session doesn't exist''))
         | Found (sid, s) \<Rightarrow>
             (let swipeCount = tally (swipes s) [];
                  userCount = length (users s);
                  unanimousResults = unanimousOf userCount swipeCount
              in if length unanimousResults > 0
                 then (st, reply 200
                         (UnanimousBody ''Unanimous decisions found'' unanimousResults
                            (sortDesc swipeCount)))
                 else
                   (let sortedSwipes = sortDesc swipeCount
                    in if length sortedSwipes = 0
                       then (st, reply 400 (ErrorBody ''No "yes" swipes recorded''))
                       else (st, reply 200
                               (RankedBody ''No unanimous decisions; sorted yes swipes provided''
                                  sortedSwipes))))))\<close>

section \<open>The aggregation as the specification words it\<close>

text \<open>
  ``For every swipe record, for every (optionId, vote) pair, increment a per-optionId
  yes-counter iff vote = yes'': the yes-count of an option is the number of such pairs in
  the whole ledger. ``unanimous = set of optionIds where yes-counter == memberCount
  (requires memberCount > 0)''; an option with a positive yes-count occurs in the ledger,
  so the set is taken among the ledger's option ids.
\<close>

definition ledger :: "session \<Rightarrow> (string \<times> string) list" where
  "ledger s = concat (map optionSwipes (swipes s))"

definition yesCounter :: "session \<Rightarrow> string \<Rightarrow> nat" where
  "yesCounter s opt = length (filter (\<lambda>e. e = (opt, ''yes'')) (ledger s))"

definition memberCount :: "session \<Rightarrow> nat" where
  "memberCount s = length (users s)"

definition unanimous :: "session \<Rightarrow> string set" where
  "unanimous s = {opt \<in> fst ` set (ledger s). 0 < memberCount s \<and> yesCounter s opt = memberCount s}"

definition descendingByCount :: "(string \<times> nat) list \<Rightarrow> bool" where
  "descendingByCount entries = sorted_wrt (\<lambda>a b. snd b \<le> snd a) entries"

text \<open>
  The tiebreak the specification asks to be fixed: the discovery order, in which the
  options stand by their first yes vote in the ledger. The ledger is read in the order in
  which \<^verbatim>\<open>findById\<close> yields the records and the entries of their Maps.
\<close>

primrec firstSeen :: "'a list \<Rightarrow> 'a list" where
  "firstSeen [] = []"
| "firstSeen (x # xs) = x # filter (\<lambda>y. y \<noteq> x) (firstSeen xs)"

definition discovered :: "session \<Rightarrow> string list" where
  "discovered s = firstSeen (map fst (filter (\<lambda>e. snd e = ''yes'') (ledger s)))"

text \<open>A JavaScript Map holds each key once.\<close>

definition keysOnce :: "('k, 'v) jsMap \<Rightarrow> bool" where
  "keysOnce m = distinct (map fst m)"

section \<open>Sample data\<close>

definition idCast :: caster where
  "idCast x = Some x"

definition dinner :: session where
  "dinner = \<lparr>sessionId = ''5f0c'', title = ''Dinner'', createdBy = Some ''u1'',
     users = [''u1'', ''u2''], options = [], status = Pending,
     swipes = [\<lparr>userId = ''u1'', optionSwipes = [(''B'', ''yes''), (''A'', ''yes'')]\<rparr>,
               \<lparr>userId = ''u2'', optionSwipes = [(''A'', ''yes''), (''B'', ''no'')]\<rparr>]\<rparr>"

definition closedDinner :: session where
  "closedDinner = dinner\<lparr>status := Completed\<rparr>"

definition emptyRoom :: session where
  "emptyRoom = dinner\<lparr>users := []\<rparr>"

definition undecided :: session where
  "undecided = dinner\<lparr>swipes := [\<lparr>userId = ''u1'', optionSwipes = [(''A'', ''no''), (''B'', ''no'')]\<rparr>]\<rparr>"

definition lunch :: session where
  "lunch = \<lparr>sessionId = ''7a1e'', title = ''Lunch'', createdBy = Some ''u1'',
     users = [''u1''], options = [], status = Pending, swipes = []\<rparr>"

definition picnic :: session where
  "picnic = dinner\<lparr>swipes := [\<lparr>userId = ''u1'', optionSwipes = [(''B'', ''yes''), (''A'', ''yes'')]\<rparr>]\<rparr>"

definition alice :: user where
  "alice = \<lparr>userUuid = ''a1'', userName = ''alice'', email = ''alice@example.com'',
     createdSessions = [''s1''], joinedSessions = []\<rparr>"

definition db :: store where
  "db = \<lparr>sessionDocs = [''s1'' \<mapsto> dinner, ''s2'' \<mapsto> closedDinner, ''s3'' \<mapsto> emptyRoom,
                         ''s4'' \<mapsto> undecided, ''s5'' \<mapsto> lunch,
                         ''s6'' \<mapsto> picnic],
          userDocs = [''u1'' \<mapsto> alice]\<rparr>"

definition swipeBy :: "string \<Rightarrow> string \<Rightarrow> string \<Rightarrow> swipeReq" where
  "swipeBy y opt act =
     \<lparr>sSessionId = Some ''s1'', sUserId = Some y, sOptionId = Some opt, sSwipeAction = Some act\<rparr>"

definition firstSwipe :: "string \<Rightarrow> swipeReq" where
  "firstSwipe act =
     \<lparr>sSessionId = Some ''s5'', sUserId = Some ''u1'', sOptionId = Some ''A'', sSwipeAction = Some act\<rparr>"

text \<open>A conversion that rejects every string but the two-character ids of the sample.\<close>

definition strictCast :: caster where
  "strictCast x = (if length x = 2 then Some x else None)"

definition joinBy :: "string \<Rightarrow> string \<Rightarrow> joinReq" where
  "joinBy x y = \<lparr>jSessionId = Some x, jUserId = Some y\<rparr>"

definition resultOf :: "string \<Rightarrow> resultReq" where
  "resultOf x = \<lparr>rSessionId = Some x\<rparr>"

section \<open>Lemmas about the primitives\<close>

subsection \<open>Map.set\<close>

lemma mapSet_twice: "mapSet k v (mapSet k w m) = mapSet k v m"
  by (induction m) auto

lemma map_of_mapSet: "map_of (mapSet k v m) = (map_of m)(k \<mapsto> v)"
  by (induction m) (auto simp: fun_eq_iff)

lemma keys_mapSet:
  "map fst (mapSet k v m) = (if k \<in> fst ` set m then map fst m else map fst m @ [k])"
  by (induction m) (auto simp: rev_image_eqI)

lemma set_mapSet: "set (mapSet k v m) \<subseteq> insert (k, v) (set m)"
  by (induction m) (auto split: if_splits)

lemma dom_mapSet: "fst ` set (mapSet k v m) = insert k (fst ` set m)"
  using arg_cong [OF keys_mapSet [of k v m], of set] by (auto split: if_splits)

lemma keysOnce_mapSet: "keysOnce m \<Longrightarrow> keysOnce (mapSet k v m)"
  by (simp add: keysOnce_def keys_mapSet)

lemma mapSet_single_entry:
  "keysOnce m \<Longrightarrow> filter (\<lambda>e. fst e = k) (mapSet k v m) = [(k, v)]"
proof (induction m)
  case Nil
  then show ?case by simp
next
  case (Cons e m)
  obtain k' v' where e: "e = (k', v')" by (cases e)
  from Cons.prems have fresh: "k' \<notin> fst ` set m" and rest: "keysOnce m"
    by (auto simp: keysOnce_def e)
  show ?case
  proof (cases "k' = k")
    case True
    with fresh have "filter (\<lambda>e. fst e = k) m = []"
      by (auto simp: filter_empty_conv)
    with True show ?thesis by (simp add: e)
  next
    case False
    with Cons.IH [OF rest] show ?thesis by (simp add: e)
  qed
qed

subsection \<open>Array.find\<close>

lemma findMember_absent: "cast x = Some u \<Longrightarrow> u \<notin> set us \<Longrightarrow> findMember cast x us = Missing"
  by (induction us) auto

lemma findMember_present: "cast x = Some u \<Longrightarrow> u \<in> set us \<Longrightarrow> findMember cast x us = Found u"
  by (induction us) auto

lemma findMember_Found: "findMember cast x us = Found u \<Longrightarrow> cast x = Some u \<and> u \<in> set us"
  by (induction us) (auto split: option.splits if_splits)

lemma findIndexFrom_None: "findIndexFrom n P xs = None \<longleftrightarrow> (\<forall>x \<in> set xs. \<not> P x)"
  by (induction xs arbitrary: n) auto

lemma findIndexFrom_Some:
  "findIndexFrom n P xs = Some i \<Longrightarrow>
     n \<le> i \<and> i - n < length xs \<and> P (xs ! (i - n)) \<and> (\<forall>j < i - n. \<not> P (xs ! j))"
proof (induction xs arbitrary: n)
  case Nil
  then show ?case by simp
next
  case (Cons x xs)
  show ?case
  proof (cases "P x")
    case True
    with Cons.prems show ?thesis by simp
  next
    case False
    with Cons.prems have step: "findIndexFrom (Suc n) P xs = Some i" by simp
    from Cons.IH [OF step] have ih: "Suc n \<le> i" "i - Suc n < length xs"
      "P (xs ! (i - Suc n))" "\<forall>j < i - Suc n. \<not> P (xs ! j)" by auto
    from ih(1) have eq: "i - n = Suc (i - Suc n)" by arith
    have "\<forall>j < i - n. \<not> P ((x # xs) ! j)"
    proof (intro allI impI)
      fix j assume "j < i - n"
      then show "\<not> P ((x # xs) ! j)"
        using False ih(4) eq by (cases j) auto
    qed
    with ih eq show ?thesis by auto
  qed
qed

lemma findIndexFrom_update:
  "findIndexFrom n P xs = Some i \<Longrightarrow> P y \<Longrightarrow> findIndexFrom n P (xs[i - n := y]) = Some i"
proof (induction xs arbitrary: n)
  case Nil
  then show ?case by simp
next
  case (Cons x xs)
  show ?case
  proof (cases "P x")
    case True
    with Cons.prems show ?thesis by simp
  next
    case False
    with Cons.prems have step: "findIndexFrom (Suc n) P xs = Some i" by simp
    from findIndexFrom_Some [OF step] have "Suc n \<le> i" by simp
    then have eq: "i - n = Suc (i - Suc n)" by arith
    from Cons.IH [OF step Cons.prems(2)] False show ?thesis by (simp add: eq)
  qed
qed

lemma findIndexFrom_snoc:
  "findIndexFrom n P xs = None \<Longrightarrow> P y \<Longrightarrow> findIndexFrom n P (xs @ [y]) = Some (n + length xs)"
  by (induction xs arbitrary: n) (auto split: if_splits)

subsection \<open>The yes-counter\<close>

lemma getOrZero_lookup: "getOrZero m k = (case map_of m k of None \<Rightarrow> 0 | Some c \<Rightarrow> c)"
  by (simp add: getOrZero_def split: option.splits)

lemma getOrZero_mapSet: "getOrZero (mapSet k v m) opt = (if opt = k then v else getOrZero m opt)"
  by (simp add: getOrZero_lookup map_of_mapSet)

lemma tallyRecord_count:
  "getOrZero (tallyRecord r acc) opt = getOrZero acc opt + length (filter (\<lambda>e. e = (opt, ''yes'')) r)"
  by (induction r acc rule: tallyRecord.induct) (auto simp: getOrZero_mapSet)

lemma tally_count:
  "getOrZero (tally sws acc) opt =
     getOrZero acc opt + length (filter (\<lambda>e. e = (opt, ''yes'')) (concat (map optionSwipes sws)))"
  by (induction sws acc rule: tally.induct) (auto simp: tallyRecord_count)

lemma tallyRecord_keysOnce: "keysOnce acc \<Longrightarrow> keysOnce (tallyRecord r acc)"
  by (induction r acc rule: tallyRecord.induct) (auto simp: keysOnce_mapSet)

lemma tally_keysOnce: "keysOnce acc \<Longrightarrow> keysOnce (tally sws acc)"
  by (induction sws acc rule: tally.induct) (auto simp: tallyRecord_keysOnce)

lemma mapSet_positive: "\<forall>e \<in> set m. 0 < snd e \<Longrightarrow> 0 < v \<Longrightarrow> \<forall>e \<in> set (mapSet k v m). 0 < snd e"
  using set_mapSet [of k v m] by auto

lemma tallyRecord_positive:
  "\<forall>e \<in> set acc. 0 < snd e \<Longrightarrow> \<forall>e \<in> set (tallyRecord r acc). 0 < snd e"
proof (induction r acc rule: tallyRecord.induct)
  case (1 swipeCount)
  then show ?case by simp
next
  case (2 opt swipeAction rest swipeCount)
  show ?case
  proof (cases "swipeAction = ''yes''")
    case True
    have "\<forall>e \<in> set (mapSet opt (getOrZero swipeCount opt + 1) swipeCount). 0 < snd e"
      by (rule mapSet_positive [OF "2.prems"]) simp
    with "2.IH" True show ?thesis by simp
  next
    case False
    with "2.IH" "2.prems" show ?thesis by simp
  qed
qed

lemma tally_positive:
  "\<forall>e \<in> set acc. 0 < snd e \<Longrightarrow> \<forall>e \<in> set (tally sws acc). 0 < snd e"
  by (induction sws acc rule: tally.induct) (simp_all add: tallyRecord_positive)

lemma tally_entries:
  "(opt, c) \<in> set (tally (swipes s) []) \<longleftrightarrow> 0 < c \<and> c = yesCounter s opt"
proof -
  let ?m = "tally (swipes s) []"
  have once: "distinct (map fst ?m)"
    using tally_keysOnce [of "[]" "swipes s"] by (simp add: keysOnce_def)
  have pos: "\<forall>e \<in> set ?m. 0 < snd e"
    by (rule tally_positive) simp
  have "getOrZero [] opt = 0" by (simp add: getOrZero_def)
  then have cnt: "getOrZero ?m opt = yesCounter s opt"
    by (simp add: tally_count yesCounter_def ledger_def)
  show ?thesis
  proof
    assume in_m: "(opt, c) \<in> set ?m"
    with once have "map_of ?m opt = Some c" by simp
    with cnt have "c = yesCounter s opt" by (simp add: getOrZero_lookup)
    moreover from pos in_m have "0 < c" by auto
    ultimately show "0 < c \<and> c = yesCounter s opt" by simp
  next
    assume c: "0 < c \<and> c = yesCounter s opt"
    with cnt have "getOrZero ?m opt = c" "0 < c" by simp_all
    then have "map_of ?m opt = Some c"
      by (auto simp: getOrZero_lookup split: option.splits)
    then show "(opt, c) \<in> set ?m" by (rule map_of_SomeD)
  qed
qed

lemma yesCounter_in_ledger: "0 < yesCounter s opt \<Longrightarrow> opt \<in> fst ` set (ledger s)"
proof -
  assume "0 < yesCounter s opt"
  then have "filter (\<lambda>e. e = (opt, ''yes'')) (ledger s) \<noteq> []"
    by (simp add: yesCounter_def)
  then have "(opt, ''yes'') \<in> set (ledger s)"
    by (auto simp: filter_empty_conv)
  then show ?thesis by (rule rev_image_eqI) simp
qed

lemma unanimousOf_set: "set (unanimousOf (length (users s)) (tally (swipes s) [])) = unanimous s"
proof -
  have "set (unanimousOf (length (users s)) (tally (swipes s) [])) =
        {opt. (opt, length (users s)) \<in> set (tally (swipes s) [])}"
    by (force simp: unanimousOf_def)
  also have "\<dots> = {opt. 0 < length (users s) \<and> length (users s) = yesCounter s opt}"
    by (simp add: tally_entries)
  also have "\<dots> = unanimous s"
  proof (rule set_eqI)
    fix opt
    show "opt \<in> {opt. 0 < length (users s) \<and> length (users s) = yesCounter s opt} \<longleftrightarrow>
          opt \<in> unanimous s"
    proof
      assume "opt \<in> {opt. 0 < length (users s) \<and> length (users s) = yesCounter s opt}"
      then have "0 < length (users s) \<and> length (users s) = yesCounter s opt"
        by (rule CollectD)
      then have a: "0 < length (users s)" and b: "length (users s) = yesCounter s opt"
        by blast+
      from a have "0 < yesCounter s opt" unfolding b .
      then have "opt \<in> fst ` set (ledger s)" by (rule yesCounter_in_ledger)
      with a b [symmetric] show "opt \<in> unanimous s"
        unfolding unanimous_def memberCount_def by (intro CollectI conjI)
    next
      assume "opt \<in> unanimous s"
      then show "opt \<in> {opt. 0 < length (users s) \<and> length (users s) = yesCounter s opt}"
        by (simp add: unanimous_def memberCount_def)
    qed
  qed
  finally show ?thesis .
qed

lemma unanimousOf_distinct: "distinct (unanimousOf n (tally (swipes s) []))"
proof -
  have "distinct (map fst (tally (swipes s) []))"
    using tally_keysOnce [of "[]" "swipes s"] by (simp add: keysOnce_def)
  then show ?thesis
    unfolding unanimousOf_def by (rule distinct_map_filter)
qed

lemma sortDesc_descending: "descendingByCount (sortDesc m)"
proof -
  have "sorted (map (\<lambda>e. - int (snd e)) (sortDesc m))"
    by (simp add: sortDesc_def)
  then show ?thesis
    by (simp add: descendingByCount_def sorted_map)
qed

lemma sortDesc_set: "set (sortDesc m) = set m"
  by (simp add: sortDesc_def)

lemma sortDesc_distinct: "distinct (sortDesc m) = distinct m"
  by (simp add: sortDesc_def)

lemma sortDesc_ties: "filter (\<lambda>e. snd e = c) (sortDesc m) = filter (\<lambda>e. snd e = c) m"
proof -
  have "filter (\<lambda>e. - int (snd e) = - int c) (sortDesc m) = filter (\<lambda>e. - int (snd e) = - int c) m"
    unfolding sortDesc_def by (rule sort_key_stable)
  then show ?thesis by simp
qed

lemma tally_distinct: "distinct (tally (swipes s) [])"
proof -
  have "distinct (map fst (tally (swipes s) []))"
    using tally_keysOnce [of "[]" "swipes s"] by (simp add: keysOnce_def)
  then show ?thesis by (simp add: distinct_map)
qed

lemma tally_empty: "tally (swipes s) [] = [] \<longleftrightarrow> (\<forall>e \<in> set (ledger s). snd e \<noteq> ''yes'')"
proof
  assume e: "tally (swipes s) [] = []"
  show "\<forall>e \<in> set (ledger s). snd e \<noteq> ''yes''"
  proof
    fix e assume m: "e \<in> set (ledger s)"
    show "snd e \<noteq> ''yes''"
    proof
      assume y: "snd e = ''yes''"
      with m have "(fst e, ''yes'') \<in> set (ledger s)" by (metis prod.collapse)
      then have "filter (\<lambda>p. p = (fst e, ''yes'')) (ledger s) \<noteq> []"
        by (auto simp: filter_empty_conv)
      then have "0 < yesCounter s (fst e)" by (simp add: yesCounter_def)
      then have "(fst e, yesCounter s (fst e)) \<in> set (tally (swipes s) [])"
        by (simp add: tally_entries)
      with e show False by simp
    qed
  qed
next
  assume no: "\<forall>e \<in> set (ledger s). snd e \<noteq> ''yes''"
  show "tally (swipes s) [] = []"
  proof (rule ccontr)
    assume "tally (swipes s) [] \<noteq> []"
    then obtain opt c where "(opt, c) \<in> set (tally (swipes s) [])"
      by (cases "tally (swipes s) []") auto
    then have "0 < yesCounter s opt" by (simp add: tally_entries)
    then have "filter (\<lambda>p. p = (opt, ''yes'')) (ledger s) \<noteq> []"
      by (simp add: yesCounter_def)
    then have "(opt, ''yes'') \<in> set (ledger s)"
      by (auto simp: filter_empty_conv)
    with no show False by auto
  qed
qed

subsection \<open>The result handler on an existing session\<close>

lemma sortDesc_empty: "sortDesc m = [] \<longleftrightarrow> m = []"
  using sortDesc_set [of m] by (metis set_empty)

lemma ComputeResult_run:
  assumes "x \<noteq> []" "cast x = Some sid" "sessionDocs st sid = Some s"
  shows \<open>ComputeResult cast st \<lparr>rSessionId = Some x\<rparr> =
     (st,
      if unanimousOf (length (users s)) (tally (swipes s) []) \<noteq> []
      then reply 200 (UnanimousBody ''Unanimous decisions found''
                        (unanimousOf (length (users s)) (tally (swipes s) []))
                        (sortDesc (tally (swipes s) [])))
      else if tally (swipes s) [] = []
      then reply 400 (ErrorBody ''No "yes" swipes recorded'')
      else reply 200 (RankedBody ''No unanimous decisions; sorted yes swipes provided''
                        (sortDesc (tally (swipes s) []))))\<close>
  using assms
  by (simp add: ComputeResult_def falsy_def findById_def Let_def sortDesc_empty)

lemma ComputeResult_readonly: "fst (ComputeResult cast st rq) = st"
  by (simp add: ComputeResult_def Let_def split: lookup.splits prod.splits)

lemma JoinSession_failure:
  "code (snd (JoinSession cast st jr)) \<noteq> 200 \<Longrightarrow> fst (JoinSession cast st jr) = st"
  by (auto simp: JoinSession_def reply_def Let_def split: lookup.splits if_splits prod.splits)

lemmas sample = db_def dinner_def closedDinner_def emptyRoom_def undecided_def lunch_def picnic_def alice_def
  idCast_def strictCast_def swipeBy_def firstSwipe_def joinBy_def resultOf_def

lemmas run = falsy_def findById_def reply_def validAction_def locateOrCreate_def setVote_def
  validKey_def getOrZero_def unanimousOf_def sortDesc_def toLowerCaseStatus_def numeral_2_eq_2

subsection \<open>The swipe handler\<close>

lemma RecordSwipe_failure:
  "code (snd (RecordSwipe cast st sr)) \<noteq> 200 \<Longrightarrow> fst (RecordSwipe cast st sr) = st"
  by (auto simp: RecordSwipe_def reply_def Let_def
           split: lookup.splits if_splits prod.splits option.splits)

lemma RecordSwipe_success:
  assumes "RecordSwipe cast st rq = (st', r)" "code r = 200"
  shows "\<exists>x y opt act sid s u.
     rq = \<lparr>sSessionId = Some x, sUserId = Some y, sOptionId = Some opt, sSwipeAction = Some act\<rparr> \<and>
     x \<noteq> [] \<and> y \<noteq> [] \<and> opt \<noteq> [] \<and> act \<in> {''yes'', ''no''} \<and>
     cast x = Some sid \<and> sessionDocs st sid = Some s \<and> cast y = Some u \<and> u \<in> set (users s)"
proof -
  obtain fx fy fo fa where rq: "rq = \<lparr>sSessionId = fx, sUserId = fy, sOptionId = fo, sSwipeAction = fa\<rparr>"
    by (cases rq) auto
  from assms have nf: "\<not> falsy fx" "\<not> falsy fy" "\<not> falsy fo" "\<not> falsy fa"
    by (auto simp: RecordSwipe_def reply_def rq split: if_splits)
  then obtain x y opt act where f: "fx = Some x" "fy = Some y" "fo = Some opt" "fa = Some act"
    and ne: "x \<noteq> []" "y \<noteq> []" "opt \<noteq> []" "act \<noteq> []"
    by (auto simp: falsy_def split: option.splits)
  from assms nf obtain sid s where s: "findById cast (sessionDocs st) x = Found (sid, s)"
    by (auto simp: RecordSwipe_def reply_def rq f split: if_splits lookup.splits)
  then have s': "cast x = Some sid" "sessionDocs st sid = Some s"
    by (auto simp: findById_def split: option.splits)
  from assms nf s obtain u where u: "findMember cast y (users s) = Found u"
    by (auto simp: RecordSwipe_def reply_def rq f split: if_splits lookup.splits)
  from assms nf s u have a: "act \<in> set validAction"
    by (auto simp: RecordSwipe_def reply_def rq f split: if_splits lookup.splits)
  have "cast y = Some u \<and> u \<in> set (users s)"
    using u by (rule findMember_Found)
  with rq f ne s' a show ?thesis by (auto simp: validAction_def)
qed

lemma RecordSwipe_run:
  assumes "x \<noteq> []" "y \<noteq> []" "opt \<noteq> []" "act \<in> {''yes'', ''no''}"
    and "cast x = Some sid" "sessionDocs st sid = Some s" "cast y = Some u" "u \<in> set (users s)"
  shows "RecordSwipe cast st
           \<lparr>sSessionId = Some x, sUserId = Some y, sOptionId = Some opt, sSwipeAction = Some act\<rparr> =
     (case findIndexFrom 0 (\<lambda>swipe. cast y = Some (userId swipe)) (swipes s) of
        None \<Rightarrow>
          (st\<lparr>sessionDocs := (sessionDocs st)
                 (sid \<mapsto> s\<lparr>swipes := swipes s @ [\<lparr>userId = u, optionSwipes = []\<rparr>]\<rparr>)\<rparr>,
           reply 200 (SwipesBody ''Swipe action recorded successfully'' [(opt, act)]))
      | Some i \<Rightarrow>
          if validKey opt
          then (st\<lparr>sessionDocs := (sessionDocs st)
                      (sid \<mapsto> s\<lparr>swipes := (swipes s)
                         [i := (swipes s ! i)\<lparr>optionSwipes := mapSet opt act (optionSwipes (swipes s ! i))\<rparr>]\<rparr>)\<rparr>,
                reply 200 (SwipesBody ''Swipe action recorded successfully''
                             (mapSet opt act (optionSwipes (swipes s ! i)))))
          else (st, reply 500 (ErrorBody ''Server error occured while recording swipe action'')))"
proof -
  from assms(4) have a: "act \<noteq> []" "act \<in> set validAction"
    by (auto simp: validAction_def)
  show ?thesis
    using assms a
    by (simp add: RecordSwipe_def falsy_def findById_def findMember_present
          locateOrCreate_def setVote_def split: option.splits)
qed

subsection \<open>Discovery order\<close>

lemma tallyRecord_append: "tallyRecord (r1 @ r2) acc = tallyRecord r2 (tallyRecord r1 acc)"
  by (induction r1 acc rule: tallyRecord.induct) simp_all

lemma tally_ledger: "tally sws acc = tallyRecord (concat (map optionSwipes sws)) acc"
  by (induction sws acc rule: tally.induct) (simp_all add: tallyRecord_append)

lemma tallyRecord_keys:
  "map fst (tallyRecord l acc) =
     map fst acc @ filter (\<lambda>opt. opt \<notin> fst ` set acc)
                     (firstSeen (map fst (filter (\<lambda>e. snd e = ''yes'') l)))"
proof (induction l acc rule: tallyRecord.induct)
  case (1 swipeCount)
  then show ?case by simp
next
  case (2 opt swipeAction rest swipeCount)
  let ?F = "firstSeen (map fst (filter (\<lambda>e. snd e = ''yes'') rest))"
  show ?case
  proof (cases "swipeAction = ''yes''")
    case False
    with "2.IH" show ?thesis by simp
  next
    case True
    let ?acc = "mapSet opt (getOrZero swipeCount opt + 1) swipeCount"
    from "2.IH" True
    have ih: "map fst (tallyRecord rest ?acc) =
        map fst ?acc @ filter (\<lambda>k. k \<notin> fst ` set ?acc) ?F" by simp
    have keys: "fst ` set ?acc = insert opt (fst ` set swipeCount)"
      by (rule dom_mapSet)
    show ?thesis
    proof (cases "opt \<in> fst ` set swipeCount")
      case True
      then have "filter (\<lambda>k. k \<notin> fst ` set swipeCount) (filter (\<lambda>k. k \<noteq> opt) ?F) =
                 filter (\<lambda>k. k \<notin> fst ` set swipeCount) ?F"
        by (auto intro: filter_cong)
      with True \<open>swipeAction = ''yes''\<close> ih keys show ?thesis
        by (simp add: keys_mapSet insert_absorb)
    next
      case False
      have "filter (\<lambda>k. k \<noteq> opt \<and> k \<notin> fst ` set swipeCount) ?F =
            filter (\<lambda>k. k \<notin> fst ` set swipeCount) (filter (\<lambda>k. k \<noteq> opt) ?F)"
        by (auto intro: filter_cong)
      with False \<open>swipeAction = ''yes''\<close> ih keys show ?thesis
        by (simp add: keys_mapSet)
    qed
  qed
qed

lemma tally_discovered: "map fst (tally (swipes s) []) = discovered s"
  by (simp add: tally_ledger tallyRecord_keys discovered_def ledger_def)

lemma tally_counts: "e \<in> set (tally (swipes s) []) \<Longrightarrow> snd e = yesCounter s (fst e)"
  using tally_entries [of "fst e" "snd e" s] by simp

lemma tally_class:
  "map fst (filter (\<lambda>e. snd e = c) (tally (swipes s) [])) =
     filter (\<lambda>opt. yesCounter s opt = c) (discovered s)"
proof -
  have "filter (\<lambda>e. snd e = c) (tally (swipes s) []) =
        filter (\<lambda>e. yesCounter s (fst e) = c) (tally (swipes s) [])"
    by (rule filter_cong) (simp_all add: tally_counts)
  then show ?thesis
    by (simp add: tally_discovered [symmetric] filter_map comp_def)
qed

lemma unanimousOf_discovered:
  "unanimousOf (length (users s)) (tally (swipes s) []) =
     filter (\<lambda>opt. yesCounter s opt = memberCount s) (discovered s)"
proof -
  have "unanimousOf (length (users s)) (tally (swipes s) []) =
        map fst (filter (\<lambda>e. snd e = length (users s)) (tally (swipes s) []))"
    by (simp add: unanimousOf_def case_prod_unfold)
  then show ?thesis by (simp add: tally_class memberCount_def)
qed

lemma discovered_empty: "tally (swipes s) [] = [] \<Longrightarrow> discovered s = []"
  using tally_discovered [of s] by simp

subsection \<open>Repeating a swipe\<close>

text \<open>
  Where the user already has a swipe record, the handler writes to the stored subdocument,
  and a repeated swipe changes nothing.
\<close>

lemma RecordSwipe_repeat_existing:
  assumes "x \<noteq> []" "y \<noteq> []" "opt \<noteq> []" "act \<in> {''yes'', ''no''}"
    and "cast x = Some sid" "sessionDocs st sid = Some s" "cast y = Some u" "u \<in> set (users s)"
    and "findIndexFrom 0 (\<lambda>swipe. cast y = Some (userId swipe)) (swipes s) = Some i"
    and "validKey opt"
  shows "RecordSwipe cast
           (fst (RecordSwipe cast st
              \<lparr>sSessionId = Some x, sUserId = Some y, sOptionId = Some opt, sSwipeAction = Some act\<rparr>))
           \<lparr>sSessionId = Some x, sUserId = Some y, sOptionId = Some opt, sSwipeAction = Some act\<rparr> =
         RecordSwipe cast st
           \<lparr>sSessionId = Some x, sUserId = Some y, sOptionId = Some opt, sSwipeAction = Some act\<rparr>"
proof -
  let ?P = "\<lambda>swipe. cast y = Some (userId swipe)"
  let ?q = "\<lparr>sSessionId = Some x, sUserId = Some y, sOptionId = Some opt, sSwipeAction = Some act\<rparr>"
  let ?rec = "(swipes s ! i)\<lparr>optionSwipes := mapSet opt act (optionSwipes (swipes s ! i))\<rparr>"
  let ?s1 = "s\<lparr>swipes := (swipes s)[i := ?rec]\<rparr>"
  let ?st1 = "st\<lparr>sessionDocs := (sessionDocs st)(sid \<mapsto> ?s1)\<rparr>"
  from findIndexFrom_Some [OF assms(9)] assms(7)
  have i: "i < length (swipes s)" and ui: "userId (swipes s ! i) = u" by auto
  have first: "RecordSwipe cast st ?q =
      (?st1, reply 200 (SwipesBody ''Swipe action recorded successfully''
                          (mapSet opt act (optionSwipes (swipes s ! i)))))"
    using RecordSwipe_run [where cast = cast, OF assms(1-8)] assms(9,10) by simp
  have s1: "sessionDocs ?st1 sid = Some ?s1" by simp
  have mem1: "u \<in> set (users ?s1)" using assms(8) by simp
  have "?P ?rec" using assms(7) ui by simp
  from findIndexFrom_update [OF assms(9) this]
  have found1: "findIndexFrom 0 ?P (swipes ?s1) = Some i" by simp
  have "RecordSwipe cast ?st1 ?q =
      (?st1, reply 200 (SwipesBody ''Swipe action recorded successfully''
                          (mapSet opt act (optionSwipes (swipes s ! i)))))"
    using RecordSwipe_run [where cast = cast, OF assms(1-5) s1 assms(7) mem1] found1 assms(10) i
    by (simp add: mapSet_twice)
  with first show ?thesis by simp
qed

section \<open>The claims\<close>

text \<open>
  Claim C1. For a session present in the store, the result handler answers with a
  ``unanimous'' result exactly when the set of options whose yes-count equals the number of
  members is not empty. That result carries precisely this set (each option once) and the
  full list of (optionId, yesCount) pairs, one pair for every option with at least one yes
  vote, sorted by yesCount descending.
\<close>

theorem computeResult_unanimous:
  assumes "x \<noteq> []" "cast x = Some sid" "sessionDocs st sid = Some s"
  shows "if unanimous s = {}
         then \<forall>msg u a. body (snd (ComputeResult cast st \<lparr>rSessionId = Some x\<rparr>)) \<noteq> UnanimousBody msg u a
         else \<exists>u a. snd (ComputeResult cast st \<lparr>rSessionId = Some x\<rparr>) =
                  reply 200 (UnanimousBody ''Unanimous decisions found'' u a) \<and>
                set u = unanimous s \<and> distinct u \<and>
                descendingByCount a \<and> distinct a \<and>
                set a = {(opt, yesCounter s opt) | opt. 0 < yesCounter s opt}"
proof -
  let ?m = "tally (swipes s) []"
  let ?u = "unanimousOf (length (users s)) ?m"
  have u: "set ?u = unanimous s" by (rule unanimousOf_set)
  have entries: "set (sortDesc ?m) = {(opt, yesCounter s opt) | opt. 0 < yesCounter s opt}"
    by (auto simp: sortDesc_set tally_entries)
  show ?thesis
  proof (cases "unanimous s = {}")
    case True
    with u have "?u = []" by simp
    with True show ?thesis
      by (simp add: ComputeResult_run [where cast = cast, OF assms] reply_def)
  next
    case False
    with u have ne: "?u \<noteq> []" by auto
    have "snd (ComputeResult cast st \<lparr>rSessionId = Some x\<rparr>) =
            reply 200 (UnanimousBody ''Unanimous decisions found'' ?u (sortDesc ?m))"
      using ne by (simp add: ComputeResult_run [where cast = cast, OF assms])
    moreover have "distinct ?u" by (rule unanimousOf_distinct)
    moreover have "descendingByCount (sortDesc ?m)" by (rule sortDesc_descending)
    moreover have "distinct (sortDesc ?m)" by (simp add: sortDesc_distinct tally_distinct)
    ultimately show ?thesis using False u entries by auto
  qed
qed

text \<open>C1 at the sample data.\<close>

theorem computeResult_unanimous_witness:
  "unanimous dinner \<noteq> {} \<and>
   (\<exists>u a. snd (ComputeResult idCast db (resultOf ''s1'')) =
             reply 200 (UnanimousBody ''Unanimous decisions found'' u a) \<and>
           set u = unanimous dinner \<and> distinct u \<and> descendingByCount a \<and> distinct a \<and>
           set a = {(opt, yesCounter dinner opt) | opt. 0 < yesCounter dinner opt}) \<and>
   snd (ComputeResult idCast db (resultOf ''s1'')) =
     reply 200 (UnanimousBody ''Unanimous decisions found'' [''A''] [(''A'', 2), (''B'', 1)])"
proof -
  have h1: "''s1'' \<noteq> []" by simp
  have h2: "idCast ''s1'' = Some ''s1''" by (simp add: idCast_def)
  have h3: "sessionDocs db ''s1'' = Some dinner" by (simp add: db_def)
  have "''A'' \<in> unanimous dinner"
    by (simp add: unanimous_def ledger_def yesCounter_def memberCount_def dinner_def)
  then have ne: "unanimous dinner \<noteq> {}" by blast
  from computeResult_unanimous [where cast = idCast, OF h1 h2 h3] ne
  have ex: "\<exists>u a. snd (ComputeResult idCast db \<lparr>rSessionId = Some ''s1''\<rparr>) =
             reply 200 (UnanimousBody ''Unanimous decisions found'' u a) \<and>
           set u = unanimous dinner \<and> distinct u \<and> descendingByCount a \<and> distinct a \<and>
           set a = {(opt, yesCounter dinner opt) | opt. 0 < yesCounter dinner opt}"
    by simp
  have val: "snd (ComputeResult idCast db (resultOf ''s1'')) =
     reply 200 (UnanimousBody ''Unanimous decisions found'' [''A''] [(''A'', 2), (''B'', 1)])"
    by (simp add: ComputeResult_def sample run)
  from ne ex val show ?thesis unfolding resultOf_def by (intro conjI)
qed

text \<open>
  Claim C2, as the code has it. With all four arguments present, a swipe on an existing
  session whose \<open>users\<close> does not contain the user fails with status 404 and the message
  ``User is not in session'' (the status the handler uses for NotFound, not the 400 of a
  Conflict), with one exception: when the user id is not one the driver accepts and the
  session has at least one member, the membership test of line 123 throws and the answer is
  status 500 ``Server error occured while recording swipe action''. In every case the store
  is left as it was.
\<close>

theorem swipe_non_member:
  assumes "x \<noteq> []" "y \<noteq> []" "opt \<noteq> []" "act \<noteq> []"
    and "cast x = Some sid" "sessionDocs st sid = Some s"
    and "\<forall>u. cast y = Some u \<longrightarrow> u \<notin> set (users s)"
  shows "RecordSwipe cast st
           \<lparr>sSessionId = Some x, sUserId = Some y, sOptionId = Some opt, sSwipeAction = Some act\<rparr>
         = (st, if cast y = None \<and> users s \<noteq> []
                then reply 500 (ErrorBody ''Server error occured while recording swipe action'')
                else reply 404 (ErrorBody ''User is not in session''))"
proof (cases "cast y")
  case None
  then have "findMember cast y (users s) = (if users s = [] then Missing else Threw)"
    by (cases "users s") simp_all
  with None assms show ?thesis
    by (simp add: RecordSwipe_def falsy_def findById_def)
next
  case (Some u)
  with assms(7) have "u \<notin> set (users s)" by simp
  from findMember_absent [where cast = cast, OF Some this] Some assms show ?thesis
    by (simp add: RecordSwipe_def falsy_def findById_def)
qed

text \<open>C2 at the sample data.\<close>

theorem swipe_non_member_witness:
  "''u9'' \<notin> set (users dinner) \<and>
   RecordSwipe idCast db (swipeBy ''u9'' ''A'' ''maybe'') =
     (db, reply 404 (ErrorBody ''User is not in session'')) \<and>
   strictCast ''ghost'' = None \<and>
   RecordSwipe strictCast db (swipeBy ''ghost'' ''A'' ''yes'') =
     (db, reply 500 (ErrorBody ''Server error occured while recording swipe action''))"
proof -
  have h: "''s1'' \<noteq> []" "''u9'' \<noteq> []" "''A'' \<noteq> []" "''maybe'' \<noteq> []" "''ghost'' \<noteq> []" "''yes'' \<noteq> []"
    by simp_all
  have c: "idCast ''s1'' = Some ''s1''" "strictCast ''s1'' = Some ''s1''" "strictCast ''ghost'' = None"
    by (simp_all add: idCast_def strictCast_def)
  have s: "sessionDocs db ''s1'' = Some dinner" by (simp add: db_def)
  have n: "''u9'' \<notin> set (users dinner)" "users dinner \<noteq> []" by (simp_all add: dinner_def)
  have a: "\<forall>u. idCast ''u9'' = Some u \<longrightarrow> u \<notin> set (users dinner)"
    using n by (simp add: idCast_def)
  have b: "\<forall>u. strictCast ''ghost'' = Some u \<longrightarrow> u \<notin> set (users dinner)"
    by (simp add: strictCast_def)
  have "RecordSwipe idCast db (swipeBy ''u9'' ''A'' ''maybe'') =
     (db, reply 404 (ErrorBody ''User is not in session''))"
    using swipe_non_member [where cast = idCast, OF h(1,2,3,4) c(1) s a]
    by (simp add: swipeBy_def idCast_def)
  moreover have "RecordSwipe strictCast db (swipeBy ''ghost'' ''A'' ''yes'') =
     (db, reply 500 (ErrorBody ''Server error occured while recording swipe action''))"
    using swipe_non_member [where cast = strictCast, OF h(1,5,3,6) c(2) s b] c(3) n(2)
    by (simp add: swipeBy_def)
  ultimately show ?thesis using n(1) c(3) by (intro conjI)
qed

text \<open>C2 as the specification words it, at the sample data.\<close>

theorem swipe_non_member_counterexample:
  "sessionDocs db ''s1'' = Some dinner \<and> ''u9'' \<notin> set (users dinner) \<and>
   RecordSwipe idCast db (swipeBy ''u9'' ''A'' ''yes'') =
     (db, reply 404 (ErrorBody ''User is not in session'')) \<and>
   code (snd (RecordSwipe idCast db (swipeBy ''u9'' ''A'' ''yes''))) \<noteq> 400"
  by (simp add: RecordSwipe_def sample run)

text \<open>
  Claim C3, as the code has it. With both ids present, an existing session and a user that
  does not exist: when the session is Completed or Cancelled the status guard of line 74
  comes first and the request fails with status 400 ``Cannot join a completed session''
  (or ``cancelled''); when the session is Pending or Active it fails with status 404
  ``User doesn't exist'', or with status 500 ``Server error'' when the user id is not one the
  driver accepts, so that the lookup of line 80 throws. The store is left as it was.
\<close>

theorem join_missing_user:
  assumes "x \<noteq> []" "y \<noteq> []"
    and "cast x = Some sid" "sessionDocs st sid = Some s"
    and "\<forall>uid. cast y = Some uid \<longrightarrow> userDocs st uid = None"
  shows "JoinSession cast st \<lparr>jSessionId = Some x, jUserId = Some y\<rparr> =
     (st, if status s = Completed \<or> status s = Cancelled
          then reply 400 (ErrorBody (''Cannot join a '' @ toLowerCaseStatus (status s) @ '' session''))
          else if cast y = None
          then reply 500 (ErrorBody ''Server error'')
          else reply 404 (ErrorBody ''User doesn't exist''))"
  using assms by (auto simp: JoinSession_def falsy_def findById_def split: option.splits)

text \<open>C3 at the sample data.\<close>

theorem join_missing_user_witness:
  "status dinner = Pending \<and> userDocs db ''ghost'' = None \<and>
   JoinSession idCast db (joinBy ''s1'' ''ghost'') = (db, reply 404 (ErrorBody ''User doesn't exist'')) \<and>
   strictCast ''ghost'' = None \<and>
   JoinSession strictCast db (joinBy ''s1'' ''ghost'') = (db, reply 500 (ErrorBody ''Server error''))"
proof -
  have h: "''s1'' \<noteq> []" "''ghost'' \<noteq> []" by simp_all
  have c: "idCast ''s1'' = Some ''s1''" "strictCast ''s1'' = Some ''s1''" "strictCast ''ghost'' = None"
    by (simp_all add: idCast_def strictCast_def)
  have s: "sessionDocs db ''s1'' = Some dinner" by (simp add: db_def)
  have n: "userDocs db ''ghost'' = None" by (simp add: db_def)
  have p: "status dinner = Pending" by (simp add: dinner_def)
  have a: "\<forall>uid. idCast ''ghost'' = Some uid \<longrightarrow> userDocs db uid = None"
    using n by (simp add: idCast_def)
  have b: "\<forall>uid. strictCast ''ghost'' = Some uid \<longrightarrow> userDocs db uid = None"
    by (simp add: strictCast_def)
  have "JoinSession idCast db (joinBy ''s1'' ''ghost'') = (db, reply 404 (ErrorBody ''User doesn't exist''))"
    using join_missing_user [where cast = idCast, OF h c(1) s a] p
    by (simp add: joinBy_def idCast_def)
  moreover have "JoinSession strictCast db (joinBy ''s1'' ''ghost'') = (db, reply 500 (ErrorBody ''Server error''))"
    using join_missing_user [where cast = strictCast, OF h c(2) s b] p c(3)
    by (simp add: joinBy_def)
  ultimately show ?thesis using p n c(3) by (intro conjI)
qed

text \<open>C3 as the specification words it, at the sample data.\<close>

theorem join_missing_user_counterexample:
  "sessionDocs db ''s2'' = Some closedDinner \<and> userDocs db ''ghost'' = None \<and>
   JoinSession idCast db (joinBy ''s2'' ''ghost'') =
     (db, reply 400 (ErrorBody ''Cannot join a completed session'')) \<and>
   code (snd (JoinSession idCast db (joinBy ''s2'' ''ghost''))) \<noteq> 404"
  by (simp add: JoinSession_def sample run)

text \<open>
  Claim C4 asks that a swipe repeated with the same arguments leave the session as the
  first one left it. At the first swipe of a member who has no swipe record the handler
  stores an empty record, the vote of line 140 going to the detached object of line 136,
  and answers with the vote. The same request again finds the stored record and writes the
  vote into it: the second call changes the stored session. (Where the user already has a
  record the repeated swipe changes nothing, lemma \<open>RecordSwipe_repeat_existing\<close>.)
\<close>

theorem recordSwipe_first_swipe_repeated:
  "RecordSwipe idCast db (firstSwipe ''yes'') =
     (db\<lparr>sessionDocs := (sessionDocs db)
           (''s5'' \<mapsto> lunch\<lparr>swipes := [\<lparr>userId = ''u1'', optionSwipes = []\<rparr>]\<rparr>)\<rparr>,
      reply 200 (SwipesBody ''Swipe action recorded successfully'' [(''A'', ''yes'')])) \<and>
   sessionDocs (fst (RecordSwipe idCast (fst (RecordSwipe idCast db (firstSwipe ''yes'')))
                       (firstSwipe ''yes''))) ''s5'' =
     Some (lunch\<lparr>swipes := [\<lparr>userId = ''u1'', optionSwipes = [(''A'', ''yes'')]\<rparr>]\<rparr>) \<and>
   sessionDocs (fst (RecordSwipe idCast (fst (RecordSwipe idCast db (firstSwipe ''yes'')))
                       (firstSwipe ''yes''))) ''s5'' \<noteq>
     sessionDocs (fst (RecordSwipe idCast db (firstSwipe ''yes''))) ''s5''"
  by (simp add: RecordSwipe_def sample run)

text \<open>
  Claim C5 asks that two swipes \<open>v1\<close> then \<open>v2\<close> leave the state that the single swipe
  \<open>v2\<close> leaves. At the first swipe of a member who has no swipe record, ``yes'' then
  ``no'' on option A stores the record with A = no, while the single swipe ``no'' stores an
  empty record: the two states differ, by the defect shown for C4.
\<close>

theorem recordSwipe_first_swipe_lost:
  "sessionDocs (fst (RecordSwipe idCast (fst (RecordSwipe idCast db (firstSwipe ''yes'')))
                       (firstSwipe ''no''))) ''s5'' =
     Some (lunch\<lparr>swipes := [\<lparr>userId = ''u1'', optionSwipes = [(''A'', ''no'')]\<rparr>]\<rparr>) \<and>
   code (snd (RecordSwipe idCast (fst (RecordSwipe idCast db (firstSwipe ''yes'')))
                       (firstSwipe ''no''))) = 200 \<and>
   RecordSwipe idCast db (firstSwipe ''no'') =
     (db\<lparr>sessionDocs := (sessionDocs db)
           (''s5'' \<mapsto> lunch\<lparr>swipes := [\<lparr>userId = ''u1'', optionSwipes = []\<rparr>]\<rparr>)\<rparr>,
      reply 200 (SwipesBody ''Swipe action recorded successfully'' [(''A'', ''no'')])) \<and>
   sessionDocs (fst (RecordSwipe idCast db (firstSwipe ''no''))) ''s5'' \<noteq>
     sessionDocs (fst (RecordSwipe idCast (fst (RecordSwipe idCast db (firstSwipe ''yes'')))
                         (firstSwipe ''no''))) ''s5''"
  by (simp add: RecordSwipe_def sample run)

text \<open>
  Claim C6. For an existing session, the result handler fails with status 400 and the
  message \<^verbatim>\<open>No "yes" swipes recorded\<close> if and only if no swipe record of the session
  holds a ``yes'' vote; a ledger of ``no'' votes only is such a session.
\<close>

theorem computeResult_no_data:
  assumes "x \<noteq> []" "cast x = Some sid" "sessionDocs st sid = Some s"
  shows \<open>(snd (ComputeResult cast st \<lparr>rSessionId = Some x\<rparr>) =
            reply 400 (ErrorBody ''No "yes" swipes recorded'')) =
         (\<forall>e \<in> set (ledger s). snd e \<noteq> ''yes'')\<close>
proof -
  let ?m = "tally (swipes s) []"
  have "?m = [] \<Longrightarrow> unanimousOf (length (users s)) ?m = []"
    by (simp add: unanimousOf_def)
  then have \<open>(snd (ComputeResult cast st \<lparr>rSessionId = Some x\<rparr>) =
            reply 400 (ErrorBody ''No "yes" swipes recorded'')) = (?m = [])\<close>
    by (auto simp: ComputeResult_run [where cast = cast, OF assms] reply_def)
  then show ?thesis by (simp add: tally_empty)
qed

text \<open>C6 at the sample data.\<close>

theorem computeResult_no_data_witness:
  \<open>ledger undecided = [(''A'', ''no''), (''B'', ''no'')] \<and>
   snd (ComputeResult idCast db (resultOf ''s4'')) = reply 400 (ErrorBody ''No "yes" swipes recorded'')\<close>
proof -
  have h1: "''s4'' \<noteq> []" by simp
  have h2: "idCast ''s4'' = Some ''s4''" by (simp add: idCast_def)
  have h3: "sessionDocs db ''s4'' = Some undecided" by (simp add: db_def)
  have no: "\<forall>e \<in> set (ledger undecided). snd e \<noteq> ''yes''"
    by (simp add: ledger_def undecided_def dinner_def)
  have l: "ledger undecided = [(''A'', ''no''), (''B'', ''no'')]"
    by (simp add: ledger_def undecided_def dinner_def)
  from computeResult_no_data [where cast = idCast, OF h1 h2 h3] no l
  show ?thesis by (simp add: resultOf_def)
qed

text \<open>
  Claim C7. For an existing session with no members, no option is unanimous and the result
  handler never answers with a ``unanimous'' result, whatever the swipe records hold.
\<close>

theorem computeResult_no_members:
  assumes "x \<noteq> []" "cast x = Some sid" "sessionDocs st sid = Some s" "users s = []"
  shows "unanimous s = {} \<and>
         (\<forall>msg u a. body (snd (ComputeResult cast st \<lparr>rSessionId = Some x\<rparr>)) \<noteq> UnanimousBody msg u a)"
proof -
  have "unanimous s = {}"
    using assms(4) by (simp add: unanimous_def memberCount_def)
  then have "unanimousOf (length (users s)) (tally (swipes s) []) = []"
    using unanimousOf_set [of s] by simp
  with \<open>unanimous s = {}\<close> show ?thesis
    by (simp add: ComputeResult_run [where cast = cast, OF assms(1-3)] reply_def)
qed

text \<open>C7 at the sample data.\<close>

theorem computeResult_no_members_witness:
  "users emptyRoom = [] \<and> unanimous emptyRoom = {} \<and>
   (\<forall>msg u a. body (snd (ComputeResult idCast db (resultOf ''s3''))) \<noteq> UnanimousBody msg u a) \<and>
   snd (ComputeResult idCast db (resultOf ''s3'')) =
     reply 200 (RankedBody ''No unanimous decisions; sorted yes swipes provided'' [(''A'', 2), (''B'', 1)])"
proof -
  have h1: "''s3'' \<noteq> []" by simp
  have h2: "idCast ''s3'' = Some ''s3''" by (simp add: idCast_def)
  have h3: "sessionDocs db ''s3'' = Some emptyRoom" by (simp add: db_def)
  have h4: "users emptyRoom = []" by (simp add: emptyRoom_def)
  have val: "snd (ComputeResult idCast db (resultOf ''s3'')) =
     reply 200 (RankedBody ''No unanimous decisions; sorted yes swipes provided'' [(''A'', 2), (''B'', 1)])"
    by (simp add: ComputeResult_def sample run)
  from computeResult_no_members [where cast = idCast, OF h1 h2 h3 h4] h4 val
  show ?thesis unfolding resultOf_def by (intro conjI) blast+
qed

text \<open>
  Claim C8. A join or a swipe that is answered with status 400 or 404 (missing argument,
  missing session or user, closed session, duplicate join, non-member, invalid vote) leaves
  the store exactly as it was: every guard comes before the first write.
\<close>

theorem failed_operations_atomic:
  "(code (snd (JoinSession cast st jr)) \<in> {400, 404} \<longrightarrow> fst (JoinSession cast st jr) = st) \<and>
   (code (snd (RecordSwipe cast st sr)) \<in> {400, 404} \<longrightarrow> fst (RecordSwipe cast st sr) = st)"
proof (intro conjI impI)
  assume "code (snd (JoinSession cast st jr)) \<in> {400, 404}"
  then have "code (snd (JoinSession cast st jr)) \<noteq> 200" by auto
  then show "fst (JoinSession cast st jr) = st" by (rule JoinSession_failure)
next
  assume "code (snd (RecordSwipe cast st sr)) \<in> {400, 404}"
  then have "code (snd (RecordSwipe cast st sr)) \<noteq> 200" by auto
  then show "fst (RecordSwipe cast st sr) = st" by (rule RecordSwipe_failure)
qed

text \<open>C8 at the sample data.\<close>

theorem failed_operations_atomic_witness:
  "code (snd (JoinSession idCast db (joinBy ''s2'' ''ghost''))) = 400 \<and>
   fst (JoinSession idCast db (joinBy ''s2'' ''ghost'')) = db \<and>
   code (snd (RecordSwipe idCast db (swipeBy ''u9'' ''A'' ''yes''))) = 404 \<and>
   fst (RecordSwipe idCast db (swipeBy ''u9'' ''A'' ''yes'')) = db"
proof -
  have j: "code (snd (JoinSession idCast db (joinBy ''s2'' ''ghost''))) = 400"
    by (simp add: JoinSession_def sample run)
  have r: "code (snd (RecordSwipe idCast db (swipeBy ''u9'' ''A'' ''yes''))) = 404"
    by (simp add: RecordSwipe_def sample run)
  from failed_operations_atomic [of idCast db "joinBy ''s2'' ''ghost''" "swipeBy ''u9'' ''A'' ''yes''"] j r
  show ?thesis by simp
qed

text \<open>
  Claim C9. The result is determined by the ledger and the membership, its order included.
  The handler leaves the store as it was, and two calls on sessions with identical swipe
  records and identical \<open>users\<close> (in particular a second call on the state the first one
  left), whatever else differs, return identical responses. The order of the pair list is
  fixed by the ledger: counts descend, and the options of equal yes-count stand in
  discovery order, which is where the stability of the sort is used; the unanimous options
  stand in discovery order too.
\<close>

theorem computeResult_deterministic:
  assumes "x \<noteq> []" "cast x = Some sid" "sessionDocs st sid = Some s"
    and "x' \<noteq> []" "cast' x' = Some sid'" "sessionDocs st' sid' = Some s'"
    and "swipes s' = swipes s" "users s' = users s"
  shows "fst (ComputeResult cast st \<lparr>rSessionId = Some x\<rparr>) = st \<and>
         snd (ComputeResult cast' st' \<lparr>rSessionId = Some x'\<rparr>) =
           snd (ComputeResult cast st \<lparr>rSessionId = Some x\<rparr>) \<and>
         descendingByCount (allResults (body (snd (ComputeResult cast st \<lparr>rSessionId = Some x\<rparr>)))) \<and>
         (\<forall>c. map fst (filter (\<lambda>e. snd e = c)
                   (allResults (body (snd (ComputeResult cast st \<lparr>rSessionId = Some x\<rparr>))))) =
               filter (\<lambda>opt. yesCounter s opt = c) (discovered s)) \<and>
         unanimousResults (body (snd (ComputeResult cast st \<lparr>rSessionId = Some x\<rparr>))) =
           filter (\<lambda>opt. yesCounter s opt = memberCount s) (discovered s)"
proof -
  let ?m = "tally (swipes s) []"
  let ?u = "unanimousOf (length (users s)) ?m"
  let ?r = "snd (ComputeResult cast st \<lparr>rSessionId = Some x\<rparr>)"
  note run = ComputeResult_run [where cast = cast, OF assms(1-3)]
  note run' = ComputeResult_run [where cast = cast', OF assms(4-6)]
  have same: "snd (ComputeResult cast' st' \<lparr>rSessionId = Some x'\<rparr>) = ?r"
    by (simp add: run run' assms(7,8))
  have all: "allResults (body ?r) = sortDesc ?m"
    by (simp add: run allResults_def reply_def sortDesc_empty [THEN iffD2])
  have una: "unanimousResults (body ?r) = ?u"
    by (simp add: run unanimousResults_def reply_def unanimousOf_def)
  have ties: "map fst (filter (\<lambda>e. snd e = c) (sortDesc ?m)) =
              filter (\<lambda>opt. yesCounter s opt = c) (discovered s)" for c
    by (simp add: sortDesc_ties tally_class)
  have unchanged: "fst (ComputeResult cast st \<lparr>rSessionId = Some x\<rparr>) = st"
    by (simp add: run)
  have desc: "descendingByCount (allResults (body ?r))"
    unfolding all by (rule sortDesc_descending)
  have classes: "\<forall>c. map fst (filter (\<lambda>e. snd e = c) (allResults (body ?r))) =
                   filter (\<lambda>opt. yesCounter s opt = c) (discovered s)"
    unfolding all using ties by blast
  have una': "unanimousResults (body ?r) =
                filter (\<lambda>opt. yesCounter s opt = memberCount s) (discovered s)"
    unfolding una by (rule unanimousOf_discovered)
  from unchanged same desc classes una' show ?thesis by (intro conjI)
qed

text \<open>C9 at the sample data.\<close>

theorem computeResult_deterministic_witness:
  "fst (ComputeResult idCast db (resultOf ''s6'')) = db \<and>
   snd (ComputeResult strictCast db (resultOf ''s6'')) = snd (ComputeResult idCast db (resultOf ''s6'')) \<and>
   discovered picnic = [''B'', ''A''] \<and>
   map fst (filter (\<lambda>e. snd e = 1) (allResults (body (snd (ComputeResult idCast db (resultOf ''s6'')))))) =
     filter (\<lambda>opt. yesCounter picnic opt = 1) (discovered picnic) \<and>
   snd (ComputeResult idCast db (resultOf ''s6'')) =
     reply 200 (RankedBody ''No unanimous decisions; sorted yes swipes provided'' [(''B'', 1), (''A'', 1)])"
proof -
  have h: "''s6'' \<noteq> []" "idCast ''s6'' = Some ''s6''" "strictCast ''s6'' = Some ''s6''"
    "sessionDocs db ''s6'' = Some picnic"
    by (simp_all add: idCast_def strictCast_def db_def)
  have d: "discovered picnic = [''B'', ''A'']"
    by (simp add: discovered_def ledger_def picnic_def dinner_def)
  have v: "snd (ComputeResult idCast db (resultOf ''s6'')) =
     reply 200 (RankedBody ''No unanimous decisions; sorted yes swipes provided'' [(''B'', 1), (''A'', 1)])"
    by (simp add: ComputeResult_def sample run)
  from computeResult_deterministic [where cast = idCast and cast' = strictCast,
      OF h(1,2,4) h(1,3,4) refl refl]
  have "fst (ComputeResult idCast db (resultOf ''s6'')) = db"
    "snd (ComputeResult strictCast db (resultOf ''s6'')) = snd (ComputeResult idCast db (resultOf ''s6''))"
    "map fst (filter (\<lambda>e. snd e = 1) (allResults (body (snd (ComputeResult idCast db (resultOf ''s6'')))))) =
     filter (\<lambda>opt. yesCounter picnic opt = 1) (discovered picnic)"
    unfolding resultOf_def by blast+
  with d v show ?thesis by (intro conjI)
qed

text \<open>
  Claim C10. Frame of a successful swipe: every other session and every user document is
  unchanged; in the session itself \<open>sessionId\<close>, \<open>title\<close>, \<open>createdBy\<close>,
  \<open>users\<close>, \<open>options\<close> and \<open>status\<close> are unchanged; the swipe records keep their
  positions and user ids, those of other users are unchanged, and at most one record is
  appended, for the swiping user, only when that user had none.
\<close>

theorem recordSwipe_frame:
  assumes "RecordSwipe cast st
        \<lparr>sSessionId = Some x, sUserId = Some y, sOptionId = Some opt, sSwipeAction = Some act\<rparr> = (st', r)"
      "code r = 200"
  shows "\<exists>sid s s' u.
     cast x = Some sid \<and> cast y = Some u \<and>
     sessionDocs st sid = Some s \<and> sessionDocs st' sid = Some s' \<and>
     (\<forall>k. k \<noteq> sid \<longrightarrow> sessionDocs st' k = sessionDocs st k) \<and>
     userDocs st' = userDocs st \<and>
     sessionId s' = sessionId s \<and> title s' = title s \<and> createdBy s' = createdBy s \<and>
     users s' = users s \<and> options s' = options s \<and> status s' = status s \<and>
     take (length (swipes s)) (map userId (swipes s')) = map userId (swipes s) \<and>
     (\<forall>j < length (swipes s). userId (swipes s ! j) \<noteq> u \<longrightarrow> swipes s' ! j = swipes s ! j) \<and>
     (length (swipes s') = length (swipes s) \<or>
      length (swipes s') = Suc (length (swipes s)) \<and> u \<notin> userId ` set (swipes s) \<and>
        userId (last (swipes s')) = u)"
proof -
  let ?P = "\<lambda>swipe. cast y = Some (userId swipe)"
  from RecordSwipe_success [OF assms] obtain sid s u where
    ne: "x \<noteq> []" "y \<noteq> []" "opt \<noteq> []" and act: "act \<in> {''yes'', ''no''}"
    and sid: "cast x = Some sid" and s: "sessionDocs st sid = Some s"
    and u: "cast y = Some u" and mem: "u \<in> set (users s)"
    by auto
  note run = RecordSwipe_run [where cast = cast, OF ne act sid s u mem]
  show ?thesis
  proof (cases "findIndexFrom 0 ?P (swipes s)")
    case None
    let ?s' = "s\<lparr>swipes := swipes s @ [\<lparr>userId = u, optionSwipes = []\<rparr>]\<rparr>"
    from run None assms(1)
    have st': "st' = st\<lparr>sessionDocs := (sessionDocs st)(sid \<mapsto> ?s')\<rparr>" by simp
    from None u have fresh: "u \<notin> userId ` set (swipes s)"
      by (auto simp: findIndexFrom_None)
    show ?thesis
      apply (rule exI [of _ sid], rule exI [of _ s], rule exI [of _ ?s'], rule exI [of _ u])
      using sid u s fresh by (simp add: st' nth_append)
  next
    case (Some i)
    from findIndexFrom_Some [OF Some] u
    have i: "i < length (swipes s)" and ui: "userId (swipes s ! i) = u" by auto
    let ?rec = "(swipes s ! i)\<lparr>optionSwipes := mapSet opt act (optionSwipes (swipes s ! i))\<rparr>"
    let ?s' = "s\<lparr>swipes := (swipes s)[i := ?rec]\<rparr>"
    from run Some assms have valid: "validKey opt"
      by (auto simp: reply_def split: if_splits)
    with run Some assms(1)
    have st': "st' = st\<lparr>sessionDocs := (sessionDocs st)(sid \<mapsto> ?s')\<rparr>" by simp
    have ids: "map userId ((swipes s)[i := ?rec]) = map userId (swipes s)"
      using i by (simp add: map_update list_update_same_conv)
    have others: "\<forall>j < length (swipes s). userId (swipes s ! j) \<noteq> u \<longrightarrow>
        (swipes s)[i := ?rec] ! j = swipes s ! j"
    proof (intro allI impI)
      fix j assume "j < length (swipes s)" and nu: "userId (swipes s ! j) \<noteq> u"
      from nu ui have "j \<noteq> i" by auto
      then show "(swipes s)[i := ?rec] ! j = swipes s ! j" by simp
    qed
    show ?thesis
      apply (rule exI [of _ sid], rule exI [of _ s], rule exI [of _ ?s'], rule exI [of _ u])
      using sid u s ids others by (simp add: st')
  qed
qed

text \<open>C10 at the sample data.\<close>

theorem recordSwipe_frame_witness:
  "code (snd (RecordSwipe idCast db (swipeBy ''u1'' ''C'' ''yes''))) = 200 \<and>
   (\<exists>s'. sessionDocs (fst (RecordSwipe idCast db (swipeBy ''u1'' ''C'' ''yes''))) ''s1'' = Some s' \<and>
      title s' = title dinner \<and> users s' = users dinner \<and> status s' = status dinner \<and>
      options s' = options dinner \<and> createdBy s' = createdBy dinner \<and>
      length (swipes s') = length (swipes dinner) \<and> swipes s' ! 1 = swipes dinner ! 1) \<and>
   sessionDocs (fst (RecordSwipe idCast db (swipeBy ''u1'' ''C'' ''yes''))) ''s2'' = sessionDocs db ''s2''"
proof -
  let ?a = "RecordSwipe idCast db (swipeBy ''u1'' ''C'' ''yes'')"
  have c: "code (snd ?a) = 200" by (simp add: RecordSwipe_def sample run)
  have a: "RecordSwipe idCast db
      \<lparr>sSessionId = Some ''s1'', sUserId = Some ''u1'', sOptionId = Some ''C'', sSwipeAction = Some ''yes''\<rparr>
      = (fst ?a, snd ?a)" by (simp add: swipeBy_def)
  have d: "sessionDocs db ''s1'' = Some dinner" by (simp add: db_def)
  have u2: "userId (swipes dinner ! 1) \<noteq> ''u1''" "length (swipes dinner) = 2"
    "''u1'' \<in> userId ` set (swipes dinner)"
    by (simp_all add: dinner_def)
  from recordSwipe_frame [OF a c] obtain sid s s' u where
    f: "idCast ''s1'' = Some sid" "idCast ''u1'' = Some u"
     "sessionDocs db sid = Some s" "sessionDocs (fst ?a) sid = Some s'"
     "\<forall>k. k \<noteq> sid \<longrightarrow> sessionDocs (fst ?a) k = sessionDocs db k"
     "title s' = title s" "createdBy s' = createdBy s"
     "users s' = users s" "options s' = options s" "status s' = status s"
     "\<forall>j < length (swipes s). userId (swipes s ! j) \<noteq> u \<longrightarrow> swipes s' ! j = swipes s ! j"
     "length (swipes s') = length (swipes s) \<or>
      length (swipes s') = Suc (length (swipes s)) \<and> u \<notin> userId ` set (swipes s) \<and>
        userId (last (swipes s')) = u"
    by blast
  from f(1,2) have sid: "sid = ''s1''" and u: "u = ''u1''" by (simp_all add: idCast_def)
  from f(3) d have s: "s = dinner" by (simp add: sid)
  have other: "sessionDocs (fst ?a) ''s2'' = sessionDocs db ''s2''"
    using f(5) by (simp add: sid)
  have len: "length (swipes s') = length (swipes dinner)"
    using f(12) u2(3) by (auto simp: s u)
  have keep: "swipes s' ! 1 = swipes dinner ! 1"
    using f(11) u2(1,2) by (simp add: s u)
  from f(4) f(6-10) len keep have
    "\<exists>s'. sessionDocs (fst ?a) ''s1'' = Some s' \<and>
      title s' = title dinner \<and> users s' = users dinner \<and> status s' = status dinner \<and>
      options s' = options dinner \<and> createdBy s' = createdBy dinner \<and>
      length (swipes s') = length (swipes dinner) \<and> swipes s' ! 1 = swipes dinner ! 1"
    by (simp add: sid s)
  with c other show ?thesis by (intro conjI)
qed

end
